theory Spec2Isabelle
  imports Main "HOL-Library.AList"
begin

section \<open>Cluster labelling: a shallow embedding of \<^verbatim>\<open>scripts/label_clusters.py\<close>\<close>

text \<open>
  The labelling script reads a table of clusters, builds a token-budgeted text digest of
  each cluster, asks a chat model for a label, cleans the answer, and rewrites the whole
  label table after every cluster. The embedding keeps the script's names. Python values
  are modelled as follows:
  \<^item> a \<open>str\<close> is a \<^typ>\<open>string\<close>, read as a list of code points below 256;
  \<^item> a text cell of the input table is a \<^typ>\<open>string option\<close>, \<open>None\<close> being a null cell;
  \<^item> Python integers are \<^typ>\<open>int\<close>, positions and counters that cannot be negative are
    \<^typ>\<open>nat\<close>;
  \<^item> a data frame with a default range index is a list of rows, the row label being the
    position;
  \<^item> an exception is a value: an uncaught one ends the run with \<open>Uncaught\<close>, one caught by
    the handler of the labelling loop ends it with \<open>Exit1\<close>.

  The dataset and the text column are part of the storage a run is given, and the model
  identifier stands for the model it names. Progress output, the pauses between
  iterations and the two lists of labels that are only counted at the end are left out.
  The command line passes \<open>None\<close> for \<open>rerun\<close> when the option is absent.
\<close>

subsection \<open>Strings\<close>

text \<open>
  \<open>str.isspace\<close> on the code points below 256: tab to carriage return, the four
  separators \<open>0x1C\<close> to \<open>0x1F\<close>, space, \<open>0x85\<close> and \<open>0xA0\<close>.
\<close>

definition py_isspace :: "char \<Rightarrow> bool" where
  "py_isspace c =
     (let n = (of_char c :: nat)
      in (9 \<le> n \<and> n \<le> 13) \<or> (28 \<le> n \<and> n \<le> 32) \<or> n = 133 \<or> n = 160)"

text \<open>
  Cutting a string at every character that satisfies \<open>P\<close>: \<open>n\<close> cut points give
  \<open>n + 1\<close> pieces, some of them possibly empty. \<open>s.split(sep)\<close> with a one-character
  separator is this cut; \<open>s.split()\<close> cuts at whitespace and drops the empty pieces.
\<close>

fun split_where :: "(char \<Rightarrow> bool) \<Rightarrow> string \<Rightarrow> string list" where
  "split_where P [] = [[]]"
| "split_where P (c # cs) =
     (if P c then [] # split_where P cs
      else (case split_where P cs of
              [] \<Rightarrow> [[c]]
            | w # ws \<Rightarrow> (c # w) # ws))"

definition py_split :: "string \<Rightarrow> string list" where
  "py_split s = filter (\<lambda>w. w \<noteq> []) (split_where py_isspace s)"

definition py_split_on :: "char \<Rightarrow> string \<Rightarrow> string list" where
  "py_split_on sep s = split_where (\<lambda>c. c = sep) s"

text \<open>
  \<open>sep.join(ws)\<close>.
\<close>

fun join :: "string \<Rightarrow> string list \<Rightarrow> string" where
  "join sep [] = []"
| "join sep [w] = w"
| "join sep (w # v # ws) = w @ sep @ join sep (v # ws)"

text \<open>
  \<open>s.replace(old, new)\<close> for a one-character \<open>old\<close>.
\<close>

definition replace_char :: "char \<Rightarrow> string \<Rightarrow> string \<Rightarrow> string" where
  "replace_char old new s = concat (map (\<lambda>c. if c = old then new else [c]) s)"

text \<open>
  Decimal rendering of a natural number, as an f-string renders \<open>{i+1}\<close>; and
  \<open>{n:03d}\<close>, which pads with zeros to at least three digits.
\<close>

definition digit_char :: "nat \<Rightarrow> char" where
  "digit_char d = char_of (48 + d)"

function show_nat :: "nat \<Rightarrow> string" where
  "show_nat n = (if n < 10 then [digit_char n] else show_nat (n div 10) @ [digit_char (n mod 10)])"
  by pat_completeness auto
termination
  by (relation "measure id") auto

declare show_nat.simps [simp del]

definition format_03d :: "nat \<Rightarrow> string" where
  "format_03d n = (let s = show_nat n in replicate (3 - length s) (CHR ''0'') @ s)"

text \<open>
  \<open>xs[:n]\<close>: a negative \<open>n\<close> counts from the end.
\<close>

definition py_take :: "int \<Rightarrow> 'a list \<Rightarrow> 'a list" where
  "py_take n xs = (if 0 \<le> n then take (nat n) xs else take (length xs - nat (- n)) xs)"

subsection \<open>The duplicate filter (lines 27 to 34)\<close>

text \<open>
  \<open>not line\<close> holds for a null cell and for the empty string; \<open>str(line)\<close> of a null
  cell is the word \<open>None\<close>.
\<close>

type_synonym item = "string option"

definition py_truthy :: "item \<Rightarrow> bool" where
  "py_truthy line = (case line of None \<Rightarrow> False | Some s \<Rightarrow> s \<noteq> [])"

definition py_str :: "item \<Rightarrow> string" where
  "py_str line = (case line of None \<Rightarrow> ''None'' | Some s \<Rightarrow> s)"

text \<open>
  The dictionary \<open>word_count\<close> is an association list in insertion order;
  \<open>word_count.get(word, 0)\<close> is \<open>dict_get\<close> and the assignment is \<open>AList.update\<close>.
\<close>

definition dict_get :: "('k \<times> 'v) list \<Rightarrow> 'k \<Rightarrow> 'v \<Rightarrow> 'v" where
  "dict_get d k dflt = (case map_of d k of None \<Rightarrow> dflt | Some v \<Rightarrow> v)"

definition count_words :: "string list \<Rightarrow> (string \<times> int) list" where
  "count_words words =
     foldl (\<lambda>word_count word. AList.update word (dict_get word_count word 0 + 1) word_count)
       [] words"

definition too_many_duplicates :: "item \<Rightarrow> int \<Rightarrow> bool" where
  "too_many_duplicates line threshold =
     (if \<not> py_truthy line then False
      else let words = py_split (py_str line);
               word_count = count_words words
           in list_ex (\<lambda>count. count > threshold) (map snd word_count))"

subsection \<open>Cleaning a label (lines 138 to 143)\<close>

definition clean_label :: "string \<Rightarrow> string" where
  "clean_label label =
     (let clean1 = replace_char (CHR 0x0A) '' '' label;
          clean2 = replace_char (CHR 0x22) [] clean1;
          clean3 = replace_char (CHR 0x27) [] clean2;
          clean4 = join '' '' (py_split clean3)
      in join '' '' (take 5 (py_split_on (CHR '' '') clean4)))"

text \<open>
  The text the words of a clean label are taken from: newlines turned into spaces, both
  kinds of quote removed.
\<close>

definition unquoted :: "string \<Rightarrow> string" where
  "unquoted label =
     filter (\<lambda>c. c \<noteq> CHR 0x22 \<and> c \<noteq> CHR 0x27)
       (map (\<lambda>c. if c = CHR 0x0A then CHR '' '' else c) label)"

subsection \<open>The model collaborator\<close>

text \<open>
  \<open>model.chat\<close> either raises or returns a value; the value is a string or, for a reply
  without content, \<open>None\<close>, on which the first \<open>replace\<close> of the cleaning raises.
\<close>

record message =
  role :: string
  content :: string

datatype chat_result = ChatRaises | ChatReturns "string option"

record chat_model =
  max_tokens_param :: int
  encode :: "string \<Rightarrow> nat list"
  decode :: "nat list \<Rightarrow> string"
  chat :: "message list \<Rightarrow> chat_result"

definition system_prompt :: "string \<Rightarrow> message" where
  "system_prompt context =
     \<lparr>role = ''system'',
      content = ''You're job is to summarize lists of items with a short label of no more than 4 words. The items are part of a cluster and the label will be used to distinguish this cluster from others, so pay attention to what makes this group of similar items distinct.\<newline>''
        @ context
        @ ''\<newline>The user will submit a bulleted list of items and you should choose a label that best summarizes the theme of the list so that someone browsing the labels will have a good idea of what is in the list. \<newline>Do not use punctuation, Do not explain yourself, respond with only a few words that summarize the list.''\<rparr>"

definition user_message :: "string \<Rightarrow> message" where
  "user_message text =
     \<lparr>role = ''user'',
      content = ''Here is a list of items, please summarize the list into a label using only a few words:\<newline>'' @ text\<rparr>"

subsection \<open>Extraction of the cluster digests (lines 96 to 113)\<close>

definition max_tokens :: "chat_model \<Rightarrow> string \<Rightarrow> int" where
  "max_tokens model context =
     max_tokens_param model - int (length (encode model (content (system_prompt context)))) - 10"

text \<open>
  \<open>drop_duplicates\<close> keeps the first occurrence of every value.
\<close>

fun drop_duplicates_from :: "'a list \<Rightarrow> 'a list \<Rightarrow> 'a list" where
  "drop_duplicates_from seen [] = []"
| "drop_duplicates_from seen (x # xs) =
     (if x \<in> set seen then drop_duplicates_from seen xs
      else x # drop_duplicates_from (x # seen) xs)"

definition drop_duplicates :: "'a list \<Rightarrow> 'a list" where
  "drop_duplicates xs = drop_duplicates_from [] xs"

text \<open>
  The list comprehension of line 109 enumerates the deduplicated items and then filters:
  \<open>digest_lines\<close> is the list of pairs of a number and an item that are rendered, and
  \<open>cluster_text\<close> the text before truncation.
\<close>

definition digest_lines :: "item list \<Rightarrow> (nat \<times> item) list" where
  "digest_lines items =
     map (\<lambda>(i, t). (i + 1, t))
       (filter (\<lambda>(i, t). \<not> too_many_duplicates t 10) (enumerate 0 (drop_duplicates items)))"

definition cluster_text :: "item list \<Rightarrow> string" where
  "cluster_text items =
     join ''\<newline>'' (map (\<lambda>(n, t). show_nat n @ ''. '' @ py_str t) (digest_lines items))"

definition extract_tokens :: "chat_model \<Rightarrow> int \<Rightarrow> item list \<Rightarrow> nat list" where
  "extract_tokens model budget items =
     (let encoded_text = encode model (cluster_text items)
      in if int (length encoded_text) > budget then py_take budget encoded_text
         else encoded_text)"

definition extract_text :: "chat_model \<Rightarrow> int \<Rightarrow> item list \<Rightarrow> string" where
  "extract_text model budget items = decode model (extract_tokens model budget items)"

subsection \<open>Tables, storage and the state of a run\<close>

datatype pyerr = FileNotFoundError | KeyError | TypeError

datatype outcome = Finished | Exit1 | Uncaught pyerr

record label_entry =
  indices :: "nat list"
  label :: "string option"
  label_raw :: "string option"
  labeled :: bool

text \<open>
  The storage of one dataset: the text column of \<open>input.parquet\<close> (\<open>None\<close> when it
  cannot be read), the parquet tables of the \<open>clusters\<close> directory by file name, the other
  file names listed there, and whether writing a given table succeeds.
\<close>

record storage =
  input_column :: "item list option"
  cluster_files :: "(string \<times> label_entry list) list"
  other_names :: "string list"
  to_parquet_ok :: "label_entry list \<Rightarrow> bool"

text \<open>
  The state the loop threads: the table in memory, every table handed to
  \<open>to_parquet\<close> (oldest first), and the cluster index of every call of \<open>model.chat\<close>
  (oldest first).
\<close>

record run_state =
  clusters :: "label_entry list"
  written :: "label_entry list list"
  chat_log :: "nat list"

record metadata =
  meta_id :: string
  meta_cluster_id :: string
  meta_model_id :: string
  meta_text_column :: string
  meta_context :: string
  meta_system_prompt :: message
  meta_max_tokens :: int

record run_result =
  status :: outcome
  run_id :: string
  final :: run_state
  meta_json :: "metadata option"

definition read_parquet :: "storage \<Rightarrow> string \<Rightarrow> label_entry list option" where
  "read_parquet store name = map_of (cluster_files store) name"

definition listdir :: "storage \<Rightarrow> string list" where
  "listdir store = map fst (cluster_files store) @ other_names store"

text \<open>
  \<open>loc_items\<close> is \<open>df.loc[list(indices), text_column]\<close>, which raises \<open>KeyError\<close> for a
  missing row label. \<open>build_extracts\<close> is the loop of lines 105 to 113.
\<close>

definition loc_items :: "item list \<Rightarrow> nat list \<Rightarrow> item list option" where
  "loc_items df idx =
     (if list_all (\<lambda>i. i < length df) idx then Some (map (\<lambda>i. df ! i) idx) else None)"

fun build_extracts ::
  "chat_model \<Rightarrow> int \<Rightarrow> item list \<Rightarrow> label_entry list \<Rightarrow> string list option" where
  "build_extracts model budget df [] = Some []"
| "build_extracts model budget df (row # rows) =
     (case loc_items df (indices row) of
        None \<Rightarrow> None
      | Some items \<Rightarrow>
          (case build_extracts model budget df rows of
             None \<Rightarrow> None
           | Some extracts \<Rightarrow> Some (extract_text model budget items # extracts)))"

subsection \<open>The run identifier (lines 64 to 83)\<close>

text \<open>
  \<open>clusters[~clusters['labeled']].first_valid_index()\<close>: the label of the first row whose
  flag is false, \<open>None\<close> when there is no such row.
\<close>

definition first_valid_index :: "(nat \<times> label_entry) list \<Rightarrow> nat option" where
  "first_valid_index rows = (case rows of [] \<Rightarrow> None | (i, r) # _ \<Rightarrow> Some i)"

definition first_unlabeled :: "label_entry list \<Rightarrow> nat option" where
  "first_unlabeled table =
     first_valid_index (filter (\<lambda>(i, r). \<not> labeled r) (enumerate 0 table))"

text \<open>
  \<open>re.match\<close> anchors the pattern at the start of the file name only: the cluster-set
  identifier, \<open>-labels-\<close>, one or more digits, \<open>.parquet\<close>.
\<close>

definition is_digit :: "char \<Rightarrow> bool" where
  "is_digit c = (let n = (of_char c :: nat) in 48 \<le> n \<and> n \<le> 57)"

definition int_of_digits :: "string \<Rightarrow> nat" where
  "int_of_digits ds = foldl (\<lambda>n c. 10 * n + (of_char c - 48)) 0 ds"

definition label_number :: "string \<Rightarrow> string \<Rightarrow> nat option" where
  "label_number cluster_id f =
     (let p = cluster_id @ ''-labels-''
      in if take (length p) f = p
         then (let r = drop (length p) f;
                   ds = takeWhile is_digit r
               in if ds \<noteq> [] \<and> take 8 (dropWhile is_digit r) = ''.parquet''
                  then Some (int_of_digits ds) else None)
         else None)"

definition fresh_label_id :: "string \<Rightarrow> string list \<Rightarrow> string" where
  "fresh_label_id cluster_id files =
     (let label_numbers = List.map_filter (label_number cluster_id) files;
          next_label_number =
            (case label_numbers of [] \<Rightarrow> 1 | n # ns \<Rightarrow> foldl max n ns + 1)
      in cluster_id @ ''-labels-'' @ format_03d next_label_number)"

text \<open>
  The branch on \<open>rerun is not None\<close>. The result is the run identifier, the table the
  run works on and \<open>unlabeled_row\<close>.
\<close>

definition resolve_run ::
  "storage \<Rightarrow> string \<Rightarrow> string option \<Rightarrow> label_entry list
     \<Rightarrow> pyerr + (string \<times> label_entry list \<times> nat option)" where
  "resolve_run store cluster_id rerun default_clusters =
     (case rerun of
        Some label_id \<Rightarrow>
          (case read_parquet store (label_id @ ''.parquet'') of
             None \<Rightarrow> Inl FileNotFoundError
           | Some table \<Rightarrow> Inr (label_id, table, first_unlabeled table))
      | None \<Rightarrow> Inr (fresh_label_id cluster_id (listdir store), default_clusters, Some 0))"

text \<open>
  The default of the parameter \<open>rerun\<close> in the signature of \<open>labeler\<close> (line 51).
\<close>

definition labeler_default_rerun :: "string option" where
  "labeler_default_rerun = Some []"

subsection \<open>The labelling loop (lines 116 to 161)\<close>

text \<open>
  \<open>chunked_iterable\<close> is only called with \<open>batch_size = 1\<close>; with a size of zero Python's
  \<open>range\<close> raises, which the definition does not model.
\<close>

definition chunked_iterable :: "'a list \<Rightarrow> nat \<Rightarrow> 'a list list" where
  "chunked_iterable iterable chunk_size =
     map (\<lambda>k. take chunk_size (drop (k * chunk_size) iterable))
       [0 ..< (length iterable + chunk_size - 1) div chunk_size]"

text \<open>
  Lines 123 and 124, before the \<open>try\<close>: comparing \<open>None\<close> with \<open>0\<close> raises
  \<open>TypeError\<close>; reading a row that does not exist raises \<open>KeyError\<close>. \<open>Inr True\<close> means the
  cluster is skipped.
\<close>

definition skip_check :: "nat option \<Rightarrow> label_entry list \<Rightarrow> nat \<Rightarrow> pyerr + bool" where
  "skip_check unlabeled_row table i =
     (case unlabeled_row of
        None \<Rightarrow> Inl TypeError
      | Some u \<Rightarrow>
          if u > 0 then (if i < length table then Inr (labeled (table ! i)) else Inl KeyError)
          else Inr False)"

text \<open>
  The \<open>try\<close> block of one iteration. The result is \<open>False\<close> when the handler is
  entered, which ends the process with \<open>exit(1)\<close>: the chat call raises, the cleaning
  raises on a reply that is not a string, or the write of the table fails. The loop only
  reaches row labels that exist (one extract per row), where
  \<open>clusters.loc[i, \<dots>] = \<dots>\<close> is a list update.
\<close>

definition label_cluster ::
  "storage \<Rightarrow> chat_model \<Rightarrow> message \<Rightarrow> nat \<Rightarrow> string list \<Rightarrow> run_state \<Rightarrow> bool \<times> run_state" where
  "label_cluster store model sys i batch st =
     (case batch of
        [] \<Rightarrow> (False, st)
      | text # _ \<Rightarrow>
          (let st1 = st\<lparr>chat_log := chat_log st @ [i]\<rparr>
           in case chat model [sys, user_message text] of
                ChatRaises \<Rightarrow> (False, st1)
              | ChatReturns None \<Rightarrow> (False, st1)
              | ChatReturns (Some lbl) \<Rightarrow>
                  (let table = (clusters st1)[i := (clusters st1 ! i)
                                 \<lparr>label := Some (clean_label lbl), label_raw := Some lbl,
                                  labeled := True\<rparr>];
                       st2 = st1\<lparr>clusters := table\<rparr>
                   in if to_parquet_ok store table
                      then (True, st2\<lparr>written := written st2 @ [table]\<rparr>)
                      else (False, st2))))"

fun label_loop ::
  "storage \<Rightarrow> chat_model \<Rightarrow> message \<Rightarrow> nat option \<Rightarrow> (nat \<times> string list) list \<Rightarrow> run_state
     \<Rightarrow> outcome \<times> run_state" where
  "label_loop store model sys unlabeled_row [] st = (Finished, st)"
| "label_loop store model sys unlabeled_row ((i, batch) # rest) st =
     (case skip_check unlabeled_row (clusters st) i of
        Inl e \<Rightarrow> (Uncaught e, st)
      | Inr True \<Rightarrow> label_loop store model sys unlabeled_row rest st
      | Inr False \<Rightarrow>
          (case label_cluster store model sys i batch st of
             (False, st') \<Rightarrow> (Exit1, st')
           | (True, st') \<Rightarrow> label_loop store model sys unlabeled_row rest st'))"

definition failed :: "pyerr \<Rightarrow> string \<Rightarrow> label_entry list \<Rightarrow> run_result" where
  "failed e label_id table =
     \<lparr>status = Uncaught e, run_id = label_id,
      final = \<lparr>clusters = table, written = [], chat_log = []\<rparr>, meta_json = None\<rparr>"

definition labeler ::
  "storage \<Rightarrow> chat_model \<Rightarrow> string \<Rightarrow> string \<Rightarrow> string \<Rightarrow> string \<Rightarrow> string option
     \<Rightarrow> run_result" where
  "labeler store model text_column cluster_id model_id context rerun =
     (case input_column store of
        None \<Rightarrow> failed FileNotFoundError [] []
      | Some df \<Rightarrow>
     (case read_parquet store (cluster_id @ ''-labels-default.parquet'') of
        None \<Rightarrow> failed FileNotFoundError [] []
      | Some default_rows \<Rightarrow>
     (case resolve_run store cluster_id rerun (map (\<lambda>r. r\<lparr>labeled := False\<rparr>) default_rows) of
        Inl e \<Rightarrow> failed e (case rerun of None \<Rightarrow> [] | Some r \<Rightarrow> r) []
      | Inr (label_id, table, unlabeled_row) \<Rightarrow>
     (let sys = system_prompt context;
          budget = max_tokens model context
      in case build_extracts model budget df table of
           None \<Rightarrow> failed KeyError label_id table
         | Some extracts \<Rightarrow>
             (let (st, fin) =
                    label_loop store model sys unlabeled_row
                      (enumerate 0 (chunked_iterable extracts 1))
                      \<lparr>clusters = table, written = [], chat_log = []\<rparr>
              in \<lparr>status = st, run_id = label_id, final = fin,
                  meta_json =
                    (if st = Finished
                     then Some \<lparr>meta_id = label_id, meta_cluster_id = cluster_id,
                                meta_model_id = model_id, meta_text_column = text_column,
                                meta_context = context, meta_system_prompt = sys,
                                meta_max_tokens = budget\<rparr>
                     else None)\<rparr>)))))"

subsection \<open>Notions used in the statements\<close>

text \<open>
  The clusters whose flag is false, in ascending order; the calls a run makes over the
  rows \<open>k, \<dots>, k + n - 1\<close> when nothing fails, given \<open>unlabeled_row\<close>; and the calls of a
  resumed run over a whole table.
\<close>

definition unlabeled_indices :: "label_entry list \<Rightarrow> nat list" where
  "unlabeled_indices table = filter (\<lambda>i. \<not> labeled (table ! i)) [0 ..< length table]"

definition expected_calls :: "nat option \<Rightarrow> label_entry list \<Rightarrow> nat \<Rightarrow> nat \<Rightarrow> nat list" where
  "expected_calls u table k n =
     (if u = Some 0 then [k ..< k + n] else filter (\<lambda>i. \<not> labeled (table ! i)) [k ..< k + n])"

definition resume_calls :: "label_entry list \<Rightarrow> nat list" where
  "resume_calls table = expected_calls (first_unlabeled table) table 0 (length table)"

text \<open>
  An entry as the loop leaves it after labelling it.
\<close>

definition engine_labeled :: "label_entry \<Rightarrow> bool" where
  "engine_labeled e =
     (labeled e \<and> (case label_raw e of None \<Rightarrow> False | Some raw \<Rightarrow> label e = Some (clean_label raw)))"

subsection \<open>Example inputs\<close>

text \<open>
  A tokenizer with one token per character and chat functions with a fixed behaviour:
  one that always gives the same answer, one that raises on a given digest.
\<close>

definition char_model :: "(message list \<Rightarrow> chat_result) \<Rightarrow> chat_model" where
  "char_model c =
     \<lparr>max_tokens_param = 4096, encode = map of_char, decode = map char_of, chat = c\<rparr>"

definition always_reply :: "string \<Rightarrow> message list \<Rightarrow> chat_result" where
  "always_reply s = (\<lambda>messages. ChatReturns (Some s))"

definition fail_on :: "string \<Rightarrow> message list \<Rightarrow> chat_result" where
  "fail_on text =
     (\<lambda>messages. if content (last messages) = content (user_message text) then ChatRaises
                 else ChatReturns (Some ''Fruit''))"

definition demo_model :: chat_model where
  "demo_model = char_model (always_reply ''Fruit'')"

definition demo_failing_model :: chat_model where
  "demo_failing_model = char_model (fail_on ''1. banana'')"

text \<open>
  A dataset of three records in three clusters, with one earlier run \<open>c-labels-001\<close>
  whose table is a parameter. A row of an earlier run is either untouched or carries an
  old label; a row labeled by \<open>demo_model\<close> carries its answer.
\<close>

definition demo_df :: "item list" where
  "demo_df = [Some ''apple pie'', Some ''banana'', Some ''cherry'']"

definition demo_row :: "nat list \<Rightarrow> bool \<Rightarrow> label_entry" where
  "demo_row idx done =
     \<lparr>indices = idx,
      label = (if done then Some ''Old label'' else None),
      label_raw = (if done then Some ''Old label.'' else None),
      labeled = done\<rparr>"

definition demo_labeled_row :: "nat list \<Rightarrow> label_entry" where
  "demo_labeled_row idx =
     \<lparr>indices = idx, label = Some ''Fruit'', label_raw = Some ''Fruit'', labeled = True\<rparr>"

definition demo_fresh_table :: "label_entry list" where
  "demo_fresh_table = [demo_row [0] False, demo_row [1] False, demo_row [2] False]"

definition demo_store :: "label_entry list \<Rightarrow> storage" where
  "demo_store table =
     \<lparr>input_column = Some demo_df,
      cluster_files =
        [(''c-labels-default.parquet'', demo_fresh_table),
         (''c-labels-001.parquet'', table)],
      other_names = [''c-labels-001.json''],
      to_parquet_ok = (\<lambda>table. True)\<rparr>"

definition demo_run ::
  "label_entry list \<Rightarrow> (message list \<Rightarrow> chat_result) \<Rightarrow> string option \<Rightarrow> run_result" where
  "demo_run table c rerun =
     labeler (demo_store table) (char_model c) ''text'' ''c'' ''char-model'' [] rerun"

text \<open>
  Tables of the earlier run: finished, with a labeled row after an unlabeled one, and
  stopped after the first cluster.
\<close>

definition demo_done_table :: "label_entry list" where
  "demo_done_table = [demo_row [0] True, demo_row [1] True, demo_row [2] True]"



text \<open>
  The digests of the three clusters, and the states of the loop of a fresh run after the
  first and after the second cluster.
\<close>

definition demo_extracts :: "string list" where
  "demo_extracts = [''1. apple pie'', ''1. banana'', ''1. cherry'']"

definition demo_table1 :: "label_entry list" where
  "demo_table1 = [demo_labeled_row [0], demo_row [1] False, demo_row [2] False]"

definition demo_table2 :: "label_entry list" where
  "demo_table2 = [demo_labeled_row [0], demo_labeled_row [1], demo_row [2] False]"

definition demo_st1 :: run_state where
  "demo_st1 = \<lparr>clusters = demo_table1, written = [demo_table1], chat_log = [0]\<rparr>"

definition demo_st2 :: run_state where
  "demo_st2 =
     \<lparr>clusters = demo_table2, written = [demo_table1, demo_table2], chat_log = [0, 1]\<rparr>"


definition spam_items :: "item list" where
  "spam_items = [Some ''x x x x x x x x x x x y'', Some ''a'']"

definition dedup_items :: "item list" where
  "dedup_items = [Some ''a b c'', Some ''a b c'', Some ''d e'']"

section \<open>Splitting and joining\<close>

lemma split_where_nonempty: "split_where P s \<noteq> []"
  by (induction s) (auto split: list.splits)

lemma split_where_chars:
  "w \<in> set (split_where P s) \<Longrightarrow> c \<in> set w \<Longrightarrow> \<not> P c \<and> c \<in> set s"
proof (induction s arbitrary: w)
  case Nil
  then show ?case by simp
next
  case (Cons a s)
  show ?case
  proof (cases "P a")
    case True
    with Cons show ?thesis by auto
  next
    case False
    obtain v vs where vs: "split_where P s = v # vs"
      using split_where_nonempty [of P s] by (cases "split_where P s") auto
    with False Cons.prems have "w = a # v \<or> w \<in> set vs" by auto
    then show ?thesis
    proof
      assume "w = a # v"
      with Cons.prems(2) have "c = a \<or> c \<in> set v" by auto
      then show ?thesis
        using False Cons.IH [of v] vs by auto
    next
      assume "w \<in> set vs"
      then show ?thesis using Cons.IH [of w] vs Cons.prems(2) by auto
    qed
  qed
qed

lemma split_where_free: "\<forall>c\<in>set w. \<not> P c \<Longrightarrow> split_where P w = [w]"
  by (induction w) auto

lemma split_where_append:
  "\<forall>c\<in>set w. \<not> P c \<Longrightarrow> P d \<Longrightarrow> split_where P (w @ d # r) = w # split_where P r"
  by (induction w) auto

lemma split_where_join:
  "ws \<noteq> [] \<Longrightarrow> \<forall>w\<in>set ws. \<forall>c\<in>set w. \<not> P c \<Longrightarrow> P d
     \<Longrightarrow> split_where P (join [d] ws) = ws"
proof (induction "[d]" ws rule: join.induct)
  case 1
  then show ?case by simp
next
  case (2 w)
  then show ?case by (simp add: split_where_free)
next
  case (3 w v ws)
  then show ?case by (simp add: split_where_append)
qed

lemma split_where_all:
  "(\<forall>c\<in>set s. P c) \<longleftrightarrow> (\<forall>w\<in>set (split_where P s). w = [])"
  by (induction s) (auto split: list.splits simp: split_where_nonempty)

lemma set_join: "set (join sep ws) \<subseteq> set sep \<union> \<Union> (set ` set ws)"
  by (induction sep ws rule: join.induct) auto

lemma join_empty_iff: "join sep ws = [] \<longleftrightarrow> (ws = [] \<or> (ws = [[]]) \<or> (sep = [] \<and> (\<forall>w\<in>set ws. w = [])))"
  by (induction sep ws rule: join.induct) auto

lemma replace_char_one: "replace_char old [n] s = map (\<lambda>c. if c = old then n else c) s"
  by (induction s) (auto simp: replace_char_def)

lemma replace_char_none: "replace_char old [] s = filter (\<lambda>c. c \<noteq> old) s"
  by (induction s) (auto simp: replace_char_def)

lemma space_isspace: "py_isspace (CHR '' '')"
  by (simp add: py_isspace_def)

lemma newline_isspace: "py_isspace (CHR 0x0A)"
  by (simp add: py_isspace_def)

lemma py_split_word:
  assumes "w \<in> set (py_split s)"
  shows "w \<noteq> []" and "\<forall>c\<in>set w. \<not> py_isspace c \<and> c \<in> set s"
  using assms split_where_chars [of w py_isspace s] by (auto simp: py_split_def)

lemma py_split_join:
  assumes "\<forall>w\<in>set ws. w \<noteq> [] \<and> (\<forall>c\<in>set w. \<not> py_isspace c)"
  shows "py_split (join '' '' ws) = ws"
proof (cases "ws = []")
  case True
  then show ?thesis by (simp add: py_split_def)
next
  case False
  have "split_where py_isspace (join [CHR '' ''] ws) = ws"
    using False assms space_isspace by (intro split_where_join) auto
  moreover have "filter (\<lambda>w. w \<noteq> []) ws = ws"
    using assms by (simp add: filter_id_conv)
  ultimately show ?thesis by (simp add: py_split_def)
qed

lemma py_split_on_join:
  assumes "ws \<noteq> []" and "\<forall>w\<in>set ws. \<forall>c\<in>set w. \<not> py_isspace c"
  shows "py_split_on (CHR '' '') (join '' '' ws) = ws"
proof -
  have "\<forall>w\<in>set ws. \<forall>c\<in>set w. \<not> (c = CHR '' '')"
    using assms(2) space_isspace by auto
  then have "split_where (\<lambda>c. c = CHR '' '') (join [CHR '' ''] ws) = ws"
    using assms(1) by (intro split_where_join) auto
  then show ?thesis by (simp add: py_split_on_def)
qed

lemma py_split_empty_iff: "py_split s = [] \<longleftrightarrow> (\<forall>c\<in>set s. py_isspace c)"
proof -
  have "py_split s = [] \<longleftrightarrow> (\<forall>w\<in>set (split_where py_isspace s). w = [])"
    by (auto simp: py_split_def filter_empty_conv)
  then show ?thesis using split_where_all [of s py_isspace] by simp
qed

section \<open>The clean label\<close>

lemma unquoted_eq:
  "replace_char (CHR 0x27) [] (replace_char (CHR 0x22) [] (replace_char (CHR 0x0A) '' '' raw))
     = unquoted raw"
  by (simp add: replace_char_one replace_char_none unquoted_def conj_commute)

lemma unquoted_set: "set (unquoted raw) \<inter> {CHR 0x0A, CHR 0x22, CHR 0x27} = {}"
  by (auto simp: unquoted_def)

lemma unquoted_all_space:
  "(\<forall>c\<in>set (unquoted raw). py_isspace c)
     \<longleftrightarrow> (\<forall>c\<in>set raw. py_isspace c \<or> c = CHR 0x22 \<or> c = CHR 0x27)"
proof
  assume L: "\<forall>c\<in>set (unquoted raw). py_isspace c"
  show "\<forall>c\<in>set raw. py_isspace c \<or> c = CHR 0x22 \<or> c = CHR 0x27"
  proof
    fix c assume c: "c \<in> set raw"
    show "py_isspace c \<or> c = CHR 0x22 \<or> c = CHR 0x27"
    proof (cases "c = CHR 0x0A \<or> c = CHR 0x22 \<or> c = CHR 0x27")
      case True
      then show ?thesis using newline_isspace by auto
    next
      case False
      with c have "c \<in> set (unquoted raw)" by (force simp: unquoted_def)
      with L show ?thesis by simp
    qed
  qed
next
  assume R: "\<forall>c\<in>set raw. py_isspace c \<or> c = CHR 0x22 \<or> c = CHR 0x27"
  show "\<forall>c\<in>set (unquoted raw). py_isspace c"
  proof
    fix c assume "c \<in> set (unquoted raw)"
    then have "c \<in> (\<lambda>d. if d = CHR 0x0A then CHR '' '' else d) ` set raw"
      and q: "c \<noteq> CHR 0x22" "c \<noteq> CHR 0x27"
      by (auto simp: unquoted_def)
    then obtain d where d: "d \<in> set raw" "c = (if d = CHR 0x0A then CHR '' '' else d)"
      by blast
    show "py_isspace c"
    proof (cases "d = CHR 0x0A")
      case True
      with d show ?thesis using space_isspace by simp
    next
      case False
      with d q R show ?thesis by auto
    qed
  qed
qed

lemma clean_label_words: "clean_label raw = join '' '' (take 5 (py_split (unquoted raw)))"
proof -
  let ?W = "py_split (unquoted raw)"
  have W: "\<forall>w\<in>set ?W. \<forall>c\<in>set w. \<not> py_isspace c"
    using py_split_word(2) by blast
  have "join '' '' (take 5 (py_split_on (CHR '' '') (join '' '' ?W))) = join '' '' (take 5 ?W)"
  proof (cases "?W = []")
    case True
    then show ?thesis by (simp add: py_split_on_def)
  next
    case False
    then show ?thesis using py_split_on_join [OF False W] by simp
  qed
  then show ?thesis
    by (simp add: clean_label_def unquoted_eq Let_def)
qed

lemma clean_label_chars:
  assumes "c \<in> set (clean_label raw)"
  shows "c = CHR '' '' \<or> (\<not> py_isspace c \<and> c \<in> set (unquoted raw))"
proof -
  from assms have "c \<in> set (join '' '' (take 5 (py_split (unquoted raw))))"
    by (simp add: clean_label_words)
  then have "c \<in> set '' '' \<union> \<Union> (set ` set (take 5 (py_split (unquoted raw))))"
    using set_join by blast
  then consider "c = CHR '' ''" | w where "w \<in> set (take 5 (py_split (unquoted raw)))" "c \<in> set w"
    by auto
  then show ?thesis
  proof cases
    case 1
    then show ?thesis by simp
  next
    case 2
    then have "w \<in> set (py_split (unquoted raw))" by (meson in_set_takeD)
    with 2(2) show ?thesis using py_split_word(2) by blast
  qed
qed

lemma py_split_clean_label: "py_split (clean_label raw) = take 5 (py_split (unquoted raw))"
proof -
  have "\<forall>w\<in>set (take 5 (py_split (unquoted raw))). w \<noteq> [] \<and> (\<forall>c\<in>set w. \<not> py_isspace c)"
    using py_split_word by (meson in_set_takeD)
  then show ?thesis
    by (simp add: clean_label_words py_split_join)
qed

lemma clean_label_empty_iff:
  "clean_label raw = [] \<longleftrightarrow> (\<forall>c\<in>set raw. py_isspace c \<or> c = CHR 0x22 \<or> c = CHR 0x27)"
proof -
  let ?W = "py_split (unquoted raw)"
  have ne: "take 5 ?W \<noteq> [[]]"
  proof
    assume "take 5 ?W = [[]]"
    then have "[] \<in> set (take 5 ?W)" by simp
    then have "[] \<in> set ?W" by (meson in_set_takeD)
    then show False using py_split_word(1) by blast
  qed
  have "clean_label raw = [] \<longleftrightarrow> take 5 ?W = []"
    using ne by (simp add: clean_label_words join_empty_iff)
  also have "\<dots> \<longleftrightarrow> ?W = []" by simp
  also have "\<dots> \<longleftrightarrow> (\<forall>c\<in>set (unquoted raw). py_isspace c)" by (rule py_split_empty_iff)
  finally show ?thesis by (simp add: unquoted_all_space)
qed

text \<open>
  Claim C5. The cleaning of a raw model output turns newlines into spaces, removes double
  and single quotes, and keeps the first five whitespace-delimited words, joined by single
  spaces. The clean label contains no newline, no double quote and no single quote, and
  has at most five whitespace-delimited words.
\<close>

theorem clean_label_spec:
  "clean_label raw = join '' '' (take 5 (py_split (unquoted raw)))
   \<and> CHR 0x0A \<notin> set (clean_label raw)
   \<and> CHR 0x22 \<notin> set (clean_label raw)
   \<and> CHR 0x27 \<notin> set (clean_label raw)
   \<and> py_split (clean_label raw) = take 5 (py_split (unquoted raw))
   \<and> length (py_split (clean_label raw)) \<le> 5"
proof -
  have nl: "CHR 0x0A \<notin> set (clean_label raw)"
    using clean_label_chars [of "CHR 0x0A" raw] newline_isspace by auto
  have dq: "CHR 0x22 \<notin> set (clean_label raw)"
    using clean_label_chars [of "CHR 0x22" raw] unquoted_set [of raw] by auto
  have sq: "CHR 0x27 \<notin> set (clean_label raw)"
    using clean_label_chars [of "CHR 0x27" raw] unquoted_set [of raw] by auto
  show ?thesis
    using nl dq sq by (simp add: clean_label_words [symmetric] py_split_clean_label)
qed

section \<open>The duplicate filter\<close>

lemma count_fold:
  assumes "distinct (map fst d)"
  shows "distinct (map fst (foldl (\<lambda>wc w. AList.update w (dict_get wc w 0 + 1) wc) d ws))
    \<and> map_of (foldl (\<lambda>wc w. AList.update w (dict_get wc w 0 + 1) wc) d ws)
       = (\<lambda>w. if w \<in> set ws \<or> w \<in> fst ` set d
               then Some (dict_get d w 0 + int (count_list ws w)) else None)"
  using assms
proof (induction ws arbitrary: d)
  case Nil
  show ?case
    using Nil by (auto simp: dict_get_def map_of_eq_None_iff fun_eq_iff split: option.splits)
next
  case (Cons a ws)
  let ?d = "AList.update a (dict_get d a 0 + 1) d"
  have dist: "distinct (map fst ?d)" using Cons.prems by (simp add: distinct_update)
  have keys: "fst ` set ?d = insert a (fst ` set d)"
    using dom_update [of a _ d] by (simp add: dom_map_of_conv_image_fst update_conv')
  have get: "\<And>w. dict_get ?d w 0 = (if w = a then dict_get d a 0 + 1 else dict_get d w 0)"
    by (simp add: dict_get_def update_conv')
  show ?case
    using Cons.IH [OF dist] by (auto simp: keys get fun_eq_iff)
qed

lemma count_words_map:
  "map_of (count_words ws) w = (if w \<in> set ws then Some (int (count_list ws w)) else None)"
  using count_fold [of "[]" ws] by (simp add: count_words_def dict_get_def)

lemma count_words_distinct: "distinct (map fst (count_words ws))"
  using count_fold [of "[]" ws] by (simp add: count_words_def)

lemma count_words_values:
  "set (map snd (count_words ws)) = (\<lambda>w. int (count_list ws w)) ` set ws"
proof -
  have "set (map snd (count_words ws)) = ran (map_of (count_words ws))"
    using ran_distinct [OF count_words_distinct [of ws]] by simp
  also have "\<dots> = (\<lambda>w. int (count_list ws w)) ` set ws"
    by (auto simp: ran_def count_words_map split: if_splits)
  finally show ?thesis .
qed

text \<open>
  Claim C8. For every text item and threshold, the duplicate filter answers true exactly
  when some whitespace-delimited token of the item occurs more often than the threshold;
  for a null item and for the empty item it answers false.
\<close>

theorem too_many_duplicates_iff:
  "(too_many_duplicates (Some s) threshold
      \<longleftrightarrow> (\<exists>w\<in>set (py_split s). threshold < int (count_list (py_split s) w)))
   \<and> too_many_duplicates None threshold = False
   \<and> too_many_duplicates (Some []) threshold = False"
proof -
  have "py_split [] = []" by (simp add: py_split_def)
  then have e: "\<not> (\<exists>w\<in>set (py_split []). threshold < int (count_list (py_split []) w))"
    by simp
  have "list_ex (\<lambda>count. count > threshold) (map snd (count_words (py_split s)))
      \<longleftrightarrow> (\<exists>w\<in>set (py_split s). threshold < int (count_list (py_split s) w))"
    unfolding list_ex_iff count_words_values by auto
  then show ?thesis
    using e by (cases "s = []") (simp_all add: too_many_duplicates_def py_truthy_def py_str_def)
qed

text \<open>
  The spec's scenario: eleven times \<open>x\<close> is over the threshold of ten, ten times is not.
\<close>

theorem too_many_duplicates_iff_witness:
  "too_many_duplicates (Some ''x x x x x x x x x x x y'') 10
   \<and> (\<exists>w\<in>set (py_split ''x x x x x x x x x x x y'').
         10 < int (count_list (py_split ''x x x x x x x x x x x y'') w))
   \<and> \<not> too_many_duplicates (Some ''x x x x x x x x x x y'') 10
   \<and> \<not> too_many_duplicates None 10"
proof -
  have a: "too_many_duplicates (Some ''x x x x x x x x x x x y'') 10"
    by code_simp
  have b: "\<not> too_many_duplicates (Some ''x x x x x x x x x x y'') 10"
    by code_simp
  show ?thesis
    using a b too_many_duplicates_iff [of "''x x x x x x x x x x x y''" 10] by blast
qed

section \<open>The cluster digest\<close>

lemma drop_duplicates_from_set:
  "set (drop_duplicates_from seen xs) = set xs - set seen"
  by (induction xs arbitrary: seen) auto

lemma drop_duplicates_from_distinct: "distinct (drop_duplicates_from seen xs)"
  by (induction xs arbitrary: seen) (auto simp: drop_duplicates_from_set)

lemma drop_duplicates_from_snoc:
  "drop_duplicates_from seen (xs @ [x]) =
     (if x \<in> set seen \<or> x \<in> set xs then drop_duplicates_from seen xs
      else drop_duplicates_from seen xs @ [x])"
  by (induction xs arbitrary: seen) auto

lemma filter_enumerate_snd:
  "map snd (filter (\<lambda>p. P (snd p)) (enumerate n xs)) = filter P xs"
  by (induction xs arbitrary: n) auto

lemma digest_lines_snd:
  "map snd (digest_lines items)
     = filter (\<lambda>t. \<not> too_many_duplicates t 10) (drop_duplicates items)"
proof -
  have "map snd (digest_lines items)
      = map snd (filter (\<lambda>p. \<not> too_many_duplicates (snd p) 10)
          (enumerate 0 (drop_duplicates items)))"
    by (simp add: digest_lines_def case_prod_unfold comp_def)
  also have "\<dots> = filter (\<lambda>t. \<not> too_many_duplicates t 10) (drop_duplicates items)"
    by (rule filter_enumerate_snd [where P = "\<lambda>t. \<not> too_many_duplicates t 10"])
  finally show ?thesis .
qed

lemma digest_lines_member:
  assumes "(n, t) \<in> set (digest_lines items)"
  shows "1 \<le> n \<and> n \<le> length (drop_duplicates items)
       \<and> drop_duplicates items ! (n - 1) = t \<and> \<not> too_many_duplicates t 10"
proof -
  from assms obtain i where
    "(i, t) \<in> set (enumerate 0 (drop_duplicates items))" "n = i + 1" "\<not> too_many_duplicates t 10"
    by (auto simp: digest_lines_def)
  then show ?thesis by (auto simp: in_set_enumerate_eq)
qed

lemma digest_lines_sorted: "sorted_wrt (<) (map fst (digest_lines items))"
proof -
  let ?E = "enumerate 0 (drop_duplicates items)"
  have "sorted_wrt (<) (map fst ?E)" by (simp only: map_fst_enumerate sorted_wrt_upt)
  then have "sorted_wrt (\<lambda>p q. fst p < fst q) ?E" unfolding sorted_wrt_map .
  then have "sorted_wrt (\<lambda>p q. fst p < fst q)
      (filter (\<lambda>(i, t). \<not> too_many_duplicates t 10) ?E)"
    by (rule sorted_wrt_filter)
  then show ?thesis
    by (simp add: digest_lines_def sorted_wrt_map case_prod_unfold)
qed

lemma digest_lines_consecutive:
  assumes "\<forall>t\<in>set items. \<not> too_many_duplicates t 10"
  shows "map fst (digest_lines items) = [1 ..< Suc (length (drop_duplicates items))]"
proof -
  let ?E = "enumerate 0 (drop_duplicates items)"
  have "\<forall>p\<in>set ?E. \<not> too_many_duplicates (snd p) 10"
  proof
    fix p assume "p \<in> set ?E"
    then have "fst p < length (drop_duplicates items)" "drop_duplicates items ! fst p = snd p"
      by (auto simp: in_set_enumerate_eq)
    then have "snd p \<in> set (drop_duplicates items)"
      using nth_mem by fastforce
    then have "snd p \<in> set items"
      by (simp add: drop_duplicates_def drop_duplicates_from_set)
    with assms show "\<not> too_many_duplicates (snd p) 10" by simp
  qed
  then have "filter (\<lambda>(i, t). \<not> too_many_duplicates t 10) ?E = ?E"
    by (auto simp: filter_id_conv)
  then have "map fst (digest_lines items) = map (\<lambda>p. Suc (fst p)) ?E"
    by (simp add: digest_lines_def case_prod_unfold comp_def)
  also have "\<dots> = map Suc (map fst ?E)"
    by (simp only: map_map comp_def)
  also have "\<dots> = map Suc [0 ..< length (drop_duplicates items)]"
    by (simp only: map_fst_enumerate) simp
  also have "\<dots> = [1 ..< Suc (length (drop_duplicates items))]"
    using map_Suc_upt [of 0 "length (drop_duplicates items)"] by simp
  finally show ?thesis .
qed

text \<open>
  Claim C7, as amended. The items of a cluster are deduplicated keeping first occurrences
  in first-seen order, the items flagged by the duplicate filter are dropped, and each
  surviving item is rendered on its own line as its number, a dot, a space and its text.
  The number is the item's position (from 1) in the deduplicated list: numbers increase
  strictly, and they are \<open>1, \<dots>, k\<close> when no item is flagged.
\<close>

theorem digest_numbering:
  "distinct (drop_duplicates items)
   \<and> set (drop_duplicates items) = set items
   \<and> (\<forall>xs x. drop_duplicates (xs @ [x])
         = (if x \<in> set xs then drop_duplicates xs else drop_duplicates xs @ [x :: item]))
   \<and> map snd (digest_lines items)
        = filter (\<lambda>t. \<not> too_many_duplicates t 10) (drop_duplicates items)
   \<and> (\<forall>(n, t)\<in>set (digest_lines items).
         1 \<le> n \<and> n \<le> length (drop_duplicates items) \<and> drop_duplicates items ! (n - 1) = t)
   \<and> sorted_wrt (<) (map fst (digest_lines items))
   \<and> ((\<forall>t\<in>set items. \<not> too_many_duplicates t 10)
        \<longrightarrow> map fst (digest_lines items) = [1 ..< Suc (length (digest_lines items))])
   \<and> cluster_text items
        = join [CHR 0x0A] (map (\<lambda>(n, t). show_nat n @ ''. '' @ py_str t) (digest_lines items))"
proof -
  have a: "distinct (drop_duplicates items)"
    by (simp add: drop_duplicates_def drop_duplicates_from_distinct)
  have b: "set (drop_duplicates items) = set items"
    by (simp add: drop_duplicates_def drop_duplicates_from_set)
  have c: "\<forall>xs x. drop_duplicates (xs @ [x])
         = (if x \<in> set xs then drop_duplicates xs else drop_duplicates xs @ [x :: item])"
    by (simp add: drop_duplicates_def drop_duplicates_from_snoc)
  have d: "\<forall>(n, t)\<in>set (digest_lines items).
         1 \<le> n \<and> n \<le> length (drop_duplicates items) \<and> drop_duplicates items ! (n - 1) = t"
    using digest_lines_member [of _ _ items] by blast
  have e: "(\<forall>t\<in>set items. \<not> too_many_duplicates t 10)
        \<longrightarrow> map fst (digest_lines items) = [1 ..< Suc (length (digest_lines items))]"
  proof
    assume h: "\<forall>t\<in>set items. \<not> too_many_duplicates t 10"
    have "length (digest_lines items) = length (map snd (digest_lines items))" by simp
    also have "\<dots> = length (drop_duplicates items)"
      using h b by (simp only: digest_lines_snd) (simp add: filter_id_conv)
    finally show "map fst (digest_lines items) = [1 ..< Suc (length (digest_lines items))]"
      using digest_lines_consecutive [OF h] by simp
  qed
  have f: "cluster_text items
        = join [CHR 0x0A] (map (\<lambda>(n, t). show_nat n @ ''. '' @ py_str t) (digest_lines items))"
    by (simp add: cluster_text_def)
  show ?thesis
    using a b c d e f digest_lines_snd [of items] digest_lines_sorted [of items] by blast
qed

text \<open>
  The spec's scenario: a repeated item is rendered once and the numbers are \<open>1, 2\<close>.
\<close>

theorem digest_numbering_witness:
  "\<not> too_many_duplicates (Some ''a b c'') 10
   \<and> \<not> too_many_duplicates (Some ''d e'') 10
   \<and> map fst (digest_lines dedup_items) = [1 ..< Suc (length (digest_lines dedup_items))]
   \<and> map snd (digest_lines dedup_items) = [Some ''a b c'', Some ''d e'']
   \<and> sorted_wrt (<) (map fst (digest_lines dedup_items))
   \<and> cluster_text dedup_items = ''1. a b c\<newline>2. d e''"
proof -
  have a: "\<not> too_many_duplicates (Some ''a b c'') 10"
    by code_simp
  have b: "\<not> too_many_duplicates (Some ''d e'') 10"
    by code_simp
  have h: "\<forall>t\<in>set dedup_items. \<not> too_many_duplicates t 10"
    using a b by (simp add: dedup_items_def)
  have c: "cluster_text dedup_items = ''1. a b c\<newline>2. d e''"
    by code_simp
  have d: "map snd (digest_lines dedup_items) = [Some ''a b c'', Some ''d e'']"
    by code_simp
  note t = digest_numbering [of dedup_items]
  from t h have n: "map fst (digest_lines dedup_items) = [1 ..< Suc (length (digest_lines dedup_items))]"
    by blast
  from t have s: "sorted_wrt (<) (map fst (digest_lines dedup_items))"
    by blast
  show ?thesis
    by (intro conjI a b n d s c)
qed

text \<open>
  The claim as written fails when an item is dropped by the filter: the only surviving
  item carries the number 2.
\<close>

theorem digest_numbering_counterexample:
  "cluster_text spam_items = ''2. a''
   \<and> map fst (digest_lines spam_items) \<noteq> [1 ..< Suc (length (digest_lines spam_items))]"
  by code_simp







section \<open>The labelling loop\<close>

lemma chunked_iterable_one: "chunked_iterable xs 1 = map (\<lambda>x. [x]) xs"
proof -
  have "map (\<lambda>k. take 1 (drop k xs)) [0..<length xs] = map (\<lambda>x. [x]) xs"
    by (rule nth_equalityI) (auto simp: take_Suc_conv_app_nth hd_drop_conv_nth take_Suc)
  then show ?thesis by (simp add: chunked_iterable_def)
qed


lemma label_loop_append:
  "label_loop store model sys u (xs @ ys) st =
     (case label_loop store model sys u xs st of
        (Finished, st') \<Rightarrow> label_loop store model sys u ys st'
      | (Exit1, st') \<Rightarrow> (Exit1, st')
      | (Uncaught e, st') \<Rightarrow> (Uncaught e, st'))"
proof (induction xs arbitrary: st)
  case Nil
  then show ?case by simp
next
  case (Cons x xs)
  obtain i batch where x: "x = (i, batch)" by (cases x)
  show ?case
    by (simp add: x Cons.IH split: sum.splits bool.splits prod.splits outcome.splits)
qed

lemma label_loop_Cons_cases:
  assumes "label_loop store model sys u ((i, batch) # rest) st = (out, fin)"
  obtains (crash) err where "skip_check u (clusters st) i = Inl err" "out = Uncaught err" "fin = st"
  | (skip) "skip_check u (clusters st) i = Inr True"
      "label_loop store model sys u rest st = (out, fin)"
  | (abort) st' where "skip_check u (clusters st) i = Inr False"
      "label_cluster store model sys i batch st = (False, st')" "out = Exit1" "fin = st'"
  | (ok) st' where "skip_check u (clusters st) i = Inr False"
      "label_cluster store model sys i batch st = (True, st')"
      "label_loop store model sys u rest st' = (out, fin)"
  using assms by (auto split: sum.splits bool.splits prod.splits)


lemma label_cluster_True:
  assumes "label_cluster store model sys i batch st = (True, st')"
  shows "\<exists>text rest raw. batch = text # rest
           \<and> chat model [sys, user_message text] = ChatReturns (Some raw)
           \<and> clusters st' = (clusters st)[i := (clusters st ! i)
                \<lparr>label := Some (clean_label raw), label_raw := Some raw, labeled := True\<rparr>]
           \<and> written st' = written st @ [clusters st']
           \<and> chat_log st' = chat_log st @ [i]
           \<and> to_parquet_ok store (clusters st')"
  using assms
  by (auto simp: label_cluster_def Let_def
      split: list.splits chat_result.splits option.splits if_splits)



lemma skip_check_True: "skip_check u table i = Inr True \<Longrightarrow> labeled (table ! i)"
  by (auto simp: skip_check_def split: option.splits if_splits)

lemma enumerate_split:
  assumes "n < length es"
  shows "enumerate 0 (map f es) =
           enumerate 0 (map f (take n es)) @ (n, f (es ! n)) # enumerate (Suc n) (map f (drop (Suc n) es))"
proof -
  have "es = take n es @ es ! n # drop (Suc n) es"
    using assms by (rule id_take_nth_drop)
  then have "enumerate 0 (map f es) = enumerate 0 (map f (take n es) @ f (es ! n) # map f (drop (Suc n) es))"
    by (metis list.simps(9) map_append)
  also have "\<dots> = enumerate 0 (map f (take n es)) @ (n, f (es ! n)) # enumerate (Suc n) (map f (drop (Suc n) es))"
    using assms by (simp add: enumerate_append_eq min_def)
  finally show ?thesis .
qed

lemma loop_finished_inv:
  assumes "label_loop store model sys u (enumerate k (map (\<lambda>x. [x]) es)) st = (Finished, fin)"
      and "k + length es \<le> length (clusters st)"
      and "\<forall>j<k. labeled (clusters st ! j)"
      and "\<forall>c\<in>set (chat_log st). c < k \<and> engine_labeled (clusters st ! c)"
  shows "(\<forall>j<k + length es. labeled (clusters fin ! j))
       \<and> (\<forall>c\<in>set (chat_log fin). c < k + length es \<and> engine_labeled (clusters fin ! c))
       \<and> length (clusters fin) = length (clusters st)
       \<and> (\<forall>j\<ge>k + length es. clusters fin ! j = clusters st ! j)"
  using assms
proof (induction es arbitrary: k st)
  case Nil
  then show ?case by simp
next
  case (Cons e es)
  let ?rest = "enumerate (Suc k) (map (\<lambda>x. [x]) es)"
  from Cons.prems(1)
  have run: "label_loop store model sys u ((k, [e]) # ?rest) st = (Finished, fin)" by simp
  have k: "k < length (clusters st)" using Cons.prems(2) by simp
  from run show ?case
  proof (cases rule: label_loop_Cons_cases)
    case (crash err)
    then show ?thesis by simp
  next
    case skip
    have a: "Suc k + length es \<le> length (clusters st)" using Cons.prems(2) by simp
    have b: "\<forall>j<Suc k. labeled (clusters st ! j)"
      using Cons.prems(3) skip_check_True [OF skip(1)] by (auto simp: less_Suc_eq)
    have c: "\<forall>c\<in>set (chat_log st). c < Suc k \<and> engine_labeled (clusters st ! c)"
      using Cons.prems(4) by auto
    from Cons.IH [OF skip(2) a b c] show ?thesis by simp
  next
    case (abort st')
    then show ?thesis by simp
  next
    case (ok st')
    from label_cluster_True [OF ok(2)] obtain raw where
      cl: "clusters st' = (clusters st)[k := (clusters st ! k)
             \<lparr>label := Some (clean_label raw), label_raw := Some raw, labeled := True\<rparr>]"
      and lg: "chat_log st' = chat_log st @ [k]" by auto
    have a: "Suc k + length es \<le> length (clusters st')" using Cons.prems(2) cl by simp
    have b: "\<forall>j<Suc k. labeled (clusters st' ! j)"
      using Cons.prems(3) k by (auto simp: cl less_Suc_eq nth_list_update)
    have c: "\<forall>c\<in>set (chat_log st'). c < Suc k \<and> engine_labeled (clusters st' ! c)"
      using Cons.prems(4) k by (auto simp: cl lg nth_list_update engine_labeled_def)
    from Cons.IH [OF ok(3) a b c] show ?thesis by (simp add: cl)
  qed
qed

text \<open>
  Claim C3. When the first \<open>n\<close> clusters went through and cluster \<open>n\<close> is labeled
  without an exception, that iteration writes the whole table once, before the loop goes
  on with cluster \<open>n + 1\<close>; in the written table every cluster up to \<open>n\<close> is flagged
  and every cluster the model was called for carries its raw output and the cleaning of
  it.
\<close>

theorem checkpoint_after_each_cluster:
  assumes "n < length extracts" and "length extracts \<le> length table"
      and "label_loop store model sys u (enumerate 0 (chunked_iterable (take n extracts) 1))
             \<lparr>clusters = table, written = [], chat_log = []\<rparr> = (Finished, st1)"
      and "skip_check u (clusters st1) n = Inr False"
      and "label_cluster store model sys n [extracts ! n] st1 = (True, st2)"
  shows "written st2 = written st1 @ [clusters st2]
       \<and> chat_log st2 = chat_log st1 @ [n]
       \<and> (\<forall>j\<le>n. labeled (clusters st2 ! j))
       \<and> (\<forall>c\<in>set (chat_log st2). engine_labeled (clusters st2 ! c))
       \<and> label_loop store model sys u (enumerate 0 (chunked_iterable extracts 1))
             \<lparr>clusters = table, written = [], chat_log = []\<rparr>
           = label_loop store model sys u
               (enumerate (Suc n) (chunked_iterable (drop (Suc n) extracts) 1)) st2"
proof -
  let ?st0 = "\<lparr>clusters = table, written = [], chat_log = []\<rparr>"
  let ?f = "\<lambda>x::string. [x]"
  have pre: "label_loop store model sys u (enumerate 0 (map ?f (take n extracts))) ?st0 = (Finished, st1)"
    using assms(3) unfolding chunked_iterable_one .
  have len: "0 + length (take n extracts) \<le> length (clusters ?st0)"
    using assms(1,2) by simp
  from loop_finished_inv [OF pre len]
  have inv: "\<forall>j<n. labeled (clusters st1 ! j)"
      "\<forall>c\<in>set (chat_log st1). c < n \<and> engine_labeled (clusters st1 ! c)"
      "length (clusters st1) = length table"
    using assms(1) by (simp_all add: min_def)
  from label_cluster_True [OF assms(5)] obtain raw where
    cl: "clusters st2 = (clusters st1)[n := (clusters st1 ! n)
           \<lparr>label := Some (clean_label raw), label_raw := Some raw, labeled := True\<rparr>]"
    and lg: "chat_log st2 = chat_log st1 @ [n]"
    and wr: "written st2 = written st1 @ [clusters st2]" by auto
  have n: "n < length (clusters st1)" using assms(1,2) inv(3) by simp
  have lab: "\<forall>j\<le>n. labeled (clusters st2 ! j)"
    using inv(1) n by (auto simp: cl nth_list_update le_less)
  have good: "\<forall>c\<in>set (chat_log st2). engine_labeled (clusters st2 ! c)"
    using inv(2) n by (auto simp: cl lg nth_list_update engine_labeled_def)
  have "label_loop store model sys u (enumerate 0 (map ?f extracts)) ?st0
      = label_loop store model sys u
          (enumerate 0 (map ?f (take n extracts)) @ (n, [extracts ! n]) #
            enumerate (Suc n) (map ?f (drop (Suc n) extracts))) ?st0"
    using enumerate_split [OF assms(1), of ?f] by simp
  also have "\<dots> = label_loop store model sys u
          ((n, [extracts ! n]) # enumerate (Suc n) (map ?f (drop (Suc n) extracts))) st1"
    by (simp add: label_loop_append pre)
  also have "\<dots> = label_loop store model sys u
          (enumerate (Suc n) (map ?f (drop (Suc n) extracts))) st2"
    using assms(4,5) by simp
  finally have "label_loop store model sys u (enumerate 0 (chunked_iterable extracts 1)) ?st0
      = label_loop store model sys u
          (enumerate (Suc n) (chunked_iterable (drop (Suc n) extracts) 1)) st2"
    unfolding chunked_iterable_one .
  with wr lg lab good show ?thesis by simp
qed

text \<open>
  A fresh run on the example dataset, at its second cluster.
\<close>

theorem checkpoint_after_each_cluster_witness:
  "label_loop (demo_store []) demo_model (system_prompt []) (Some 0)
         (enumerate 0 (chunked_iterable (take 1 demo_extracts) 1))
         \<lparr>clusters = demo_fresh_table, written = [], chat_log = []\<rparr> = (Finished, demo_st1)
   \<and> skip_check (Some 0) (clusters demo_st1) 1 = Inr False
   \<and> label_cluster (demo_store []) demo_model (system_prompt []) 1 [demo_extracts ! 1] demo_st1
        = (True, demo_st2)
   \<and> written demo_st2 = written demo_st1 @ [clusters demo_st2]
   \<and> chat_log demo_st2 = [0, 1]
   \<and> labeled (clusters demo_st2 ! 0)
   \<and> labeled (clusters demo_st2 ! 1)
   \<and> engine_labeled (clusters demo_st2 ! 0)
   \<and> engine_labeled (clusters demo_st2 ! 1)
   \<and> label_loop (demo_store []) demo_model (system_prompt []) (Some 0)
         (enumerate 0 (chunked_iterable demo_extracts 1))
         \<lparr>clusters = demo_fresh_table, written = [], chat_log = []\<rparr>
       = label_loop (demo_store []) demo_model (system_prompt []) (Some 0)
           (enumerate (Suc 1) (chunked_iterable (drop (Suc 1) demo_extracts) 1)) demo_st2"
proof -
  have h1: "1 < length demo_extracts"
    by (simp add: demo_extracts_def)
  have h2: "length demo_extracts \<le> length demo_fresh_table"
    by (simp add: demo_extracts_def demo_fresh_table_def)
  have h3: "label_loop (demo_store []) demo_model (system_prompt []) (Some 0)
         (enumerate 0 (chunked_iterable (take 1 demo_extracts) 1))
         \<lparr>clusters = demo_fresh_table, written = [], chat_log = []\<rparr> = (Finished, demo_st1)"
    by code_simp
  have h4: "skip_check (Some 0) (clusters demo_st1) 1 = Inr False"
    by (simp add: skip_check_def)
  have h5: "label_cluster (demo_store []) demo_model (system_prompt []) 1 [demo_extracts ! 1] demo_st1
        = (True, demo_st2)"
    by code_simp
  have l: "chat_log demo_st1 = [0]"
    by code_simp
  note t = checkpoint_after_each_cluster [OF h1 h2 h3 h4 h5]
  from t have w: "written demo_st2 = written demo_st1 @ [clusters demo_st2]" by (rule conjunct1)
  from t l have c: "chat_log demo_st2 = [0, 1]" by simp
  from t have a: "\<forall>j\<le>1. labeled (clusters demo_st2 ! j)" by blast
  from t have g: "\<forall>c\<in>set (chat_log demo_st2). engine_labeled (clusters demo_st2 ! c)" by blast
  from t have r: "label_loop (demo_store []) demo_model (system_prompt []) (Some 0)
         (enumerate 0 (chunked_iterable demo_extracts 1))
         \<lparr>clusters = demo_fresh_table, written = [], chat_log = []\<rparr>
       = label_loop (demo_store []) demo_model (system_prompt []) (Some 0)
           (enumerate (Suc 1) (chunked_iterable (drop (Suc 1) demo_extracts) 1)) demo_st2"
    by blast
  from a have a0: "labeled (clusters demo_st2 ! 0)" and a1: "labeled (clusters demo_st2 ! 1)"
    by simp_all
  from g c have g0: "engine_labeled (clusters demo_st2 ! 0)"
    and g1: "engine_labeled (clusters demo_st2 ! 1)"
    by simp_all
  show ?thesis
    by (intro conjI h3 h4 h5 w c a0 a1 g0 g1 r)
qed

text \<open>
  Claim C4. When the first \<open>n\<close> clusters went through and the chat call for cluster
  \<open>n\<close> raises, or returns no text so that the cleaning raises, the loop ends at once with
  \<open>exit(1)\<close>: the table in memory and the tables written so far are those reached before
  the failure, the entry of cluster \<open>n\<close> is as it was loaded, and the model was called
  for cluster \<open>n\<close> once.
\<close>

theorem abort_on_model_failure:
  assumes "n < length extracts" and "length extracts \<le> length table"
      and "label_loop store model sys u (enumerate 0 (chunked_iterable (take n extracts) 1))
             \<lparr>clusters = table, written = [], chat_log = []\<rparr> = (Finished, st1)"
      and "skip_check u (clusters st1) n = Inr False"
      and "chat model [sys, user_message (extracts ! n)] = ChatRaises
           \<or> chat model [sys, user_message (extracts ! n)] = ChatReturns None"
  shows "label_loop store model sys u (enumerate 0 (chunked_iterable extracts 1))
             \<lparr>clusters = table, written = [], chat_log = []\<rparr>
           = (Exit1, st1\<lparr>chat_log := chat_log st1 @ [n]\<rparr>)
       \<and> clusters st1 ! n = table ! n
       \<and> n \<notin> set (chat_log st1)"
proof -
  let ?st0 = "\<lparr>clusters = table, written = [], chat_log = []\<rparr>"
  let ?f = "\<lambda>x::string. [x]"
  have pre: "label_loop store model sys u (enumerate 0 (map ?f (take n extracts))) ?st0 = (Finished, st1)"
    using assms(3) unfolding chunked_iterable_one .
  have len: "0 + length (take n extracts) \<le> length (clusters ?st0)"
    using assms(1,2) by simp
  from loop_finished_inv [OF pre len]
  have inv: "\<forall>c\<in>set (chat_log st1). c < n" "\<forall>j\<ge>n. clusters st1 ! j = table ! j"
    using assms(1) by (simp_all add: min_def)
  have fail: "label_cluster store model sys n [extracts ! n] st1
      = (False, st1\<lparr>chat_log := chat_log st1 @ [n]\<rparr>)"
    using assms(5) by (auto simp: label_cluster_def)
  have "label_loop store model sys u (enumerate 0 (map ?f extracts)) ?st0
      = label_loop store model sys u
          (enumerate 0 (map ?f (take n extracts)) @ (n, [extracts ! n]) #
            enumerate (Suc n) (map ?f (drop (Suc n) extracts))) ?st0"
    using enumerate_split [OF assms(1), of ?f] by simp
  also have "\<dots> = label_loop store model sys u
          ((n, [extracts ! n]) # enumerate (Suc n) (map ?f (drop (Suc n) extracts))) st1"
    by (simp add: label_loop_append pre)
  also have "\<dots> = (Exit1, st1\<lparr>chat_log := chat_log st1 @ [n]\<rparr>)"
    using assms(4) fail by simp
  finally have "label_loop store model sys u (enumerate 0 (chunked_iterable extracts 1)) ?st0
      = (Exit1, st1\<lparr>chat_log := chat_log st1 @ [n]\<rparr>)"
    unfolding chunked_iterable_one .
  moreover have "clusters st1 ! n = table ! n" using inv(2) by simp
  moreover have "n \<notin> set (chat_log st1)" using inv(1) by auto
  ultimately show ?thesis by simp
qed

text \<open>
  A fresh run whose model fails on the second cluster: one table was written, for the
  first cluster, and the loop ends with \<open>exit(1)\<close>.
\<close>

theorem abort_on_model_failure_witness:
  "1 < length demo_extracts
   \<and> length demo_extracts \<le> length demo_fresh_table
   \<and> label_loop (demo_store []) demo_failing_model (system_prompt []) (Some 0)
         (enumerate 0 (chunked_iterable (take 1 demo_extracts) 1))
         \<lparr>clusters = demo_fresh_table, written = [], chat_log = []\<rparr> = (Finished, demo_st1)
   \<and> skip_check (Some 0) (clusters demo_st1) 1 = Inr False
   \<and> (chat demo_failing_model [system_prompt [], user_message (demo_extracts ! 1)] = ChatRaises
       \<or> chat demo_failing_model [system_prompt [], user_message (demo_extracts ! 1)] = ChatReturns None)
   \<and> (label_loop (demo_store []) demo_failing_model (system_prompt []) (Some 0)
          (enumerate 0 (chunked_iterable demo_extracts 1))
          \<lparr>clusters = demo_fresh_table, written = [], chat_log = []\<rparr>
        = (Exit1, demo_st1\<lparr>chat_log := chat_log demo_st1 @ [1]\<rparr>)
       \<and> clusters demo_st1 ! 1 = demo_fresh_table ! 1
       \<and> 1 \<notin> set (chat_log demo_st1))"
proof -
  have h1: "1 < length demo_extracts"
    by (simp add: demo_extracts_def)
  have h2: "length demo_extracts \<le> length demo_fresh_table"
    by (simp add: demo_extracts_def demo_fresh_table_def)
  have h3: "label_loop (demo_store []) demo_failing_model (system_prompt []) (Some 0)
         (enumerate 0 (chunked_iterable (take 1 demo_extracts) 1))
         \<lparr>clusters = demo_fresh_table, written = [], chat_log = []\<rparr> = (Finished, demo_st1)"
    by code_simp
  have h4: "skip_check (Some 0) (clusters demo_st1) 1 = Inr False"
    by (simp add: skip_check_def)
  have "chat demo_failing_model [system_prompt [], user_message (demo_extracts ! 1)] = ChatRaises"
    by (simp add: demo_failing_model_def char_model_def fail_on_def demo_extracts_def)
  then have h5: "chat demo_failing_model [system_prompt [], user_message (demo_extracts ! 1)] = ChatRaises
       \<or> chat demo_failing_model [system_prompt [], user_message (demo_extracts ! 1)] = ChatReturns None"
    by (rule disjI1)
  show ?thesis
    by (rule conjI [OF h1 conjI [OF h2 conjI [OF h3 conjI [OF h4 conjI [OF h5
          abort_on_model_failure [OF h1 h2 h3 h4 h5]]]]]])
qed

text \<open>
  Claim C9, as amended. An entry the loop marks as labeled holds the model's output
  verbatim in \<open>label_raw\<close> and the cleaning of it in \<open>label\<close>. The clean label is not
  empty exactly when the output has a character that is neither whitespace nor a quote.
\<close>

theorem labeled_entry_contents:
  assumes "label_cluster store model sys i [text] st = (True, st')"
      and "i < length (clusters st)"
  shows "\<exists>raw. chat model [sys, user_message text] = ChatReturns (Some raw)
       \<and> labeled (clusters st' ! i)
       \<and> label_raw (clusters st' ! i) = Some raw
       \<and> label (clusters st' ! i) = Some (clean_label raw)
       \<and> (clean_label raw \<noteq> []
            \<longleftrightarrow> (\<exists>c\<in>set raw. \<not> py_isspace c \<and> c \<noteq> CHR 0x22 \<and> c \<noteq> CHR 0x27))"
proof -
  from label_cluster_True [OF assms(1)] obtain raw where
    c: "chat model [sys, user_message text] = ChatReturns (Some raw)"
    and cl: "clusters st' = (clusters st)[i := (clusters st ! i)
           \<lparr>label := Some (clean_label raw), label_raw := Some raw, labeled := True\<rparr>]"
    by auto
  have "clean_label raw \<noteq> []
      \<longleftrightarrow> (\<exists>c\<in>set raw. \<not> py_isspace c \<and> c \<noteq> CHR 0x22 \<and> c \<noteq> CHR 0x27)"
    using clean_label_empty_iff [of raw] by blast
  then show ?thesis
    using c cl assms(2) by (intro exI [of _ raw]) simp
qed

text \<open>
  The entry of the second cluster of a fresh run.
\<close>

theorem labeled_entry_contents_witness:
  "label_cluster (demo_store []) demo_model (system_prompt []) 1 [demo_extracts ! 1] demo_st1
     = (True, demo_st2)
   \<and> 1 < length (clusters demo_st1)
   \<and> (\<exists>raw. chat demo_model [system_prompt [], user_message (demo_extracts ! 1)]
                = ChatReturns (Some raw)
       \<and> labeled (clusters demo_st2 ! 1)
       \<and> label_raw (clusters demo_st2 ! 1) = Some raw
       \<and> label (clusters demo_st2 ! 1) = Some (clean_label raw)
       \<and> (clean_label raw \<noteq> []
            \<longleftrightarrow> (\<exists>c\<in>set raw. \<not> py_isspace c \<and> c \<noteq> CHR 0x22 \<and> c \<noteq> CHR 0x27)))"
proof -
  have h1: "label_cluster (demo_store []) demo_model (system_prompt []) 1 [demo_extracts ! 1] demo_st1
     = (True, demo_st2)"
    by code_simp
  have h2: "1 < length (clusters demo_st1)"
    by code_simp
  show ?thesis
    by (rule conjI [OF h1 conjI [OF h2 labeled_entry_contents [OF h1 h2]]])
qed

text \<open>
  The claim as written fails for a model that answers with the empty string: the entry is
  flagged and both its label and its raw label are empty.
\<close>

theorem empty_label_counterexample:
  "status (demo_run [] (always_reply []) None) = Finished
   \<and> labeled (clusters (final (demo_run [] (always_reply []) None)) ! 0)
   \<and> label (clusters (final (demo_run [] (always_reply []) None)) ! 0) = Some []
   \<and> label_raw (clusters (final (demo_run [] (always_reply []) None)) ! 0) = Some []"
  by code_simp

section \<open>Resuming a run\<close>






lemma first_unlabeled_Some0:
  "first_unlabeled table = Some 0 \<longleftrightarrow> table \<noteq> [] \<and> \<not> labeled (table ! 0)"
proof (cases table)
  case Nil
  then show ?thesis by (simp add: first_unlabeled_def first_valid_index_def)
next
  case (Cons x xs)
  show ?thesis
  proof (cases "labeled x")
    case False
    then show ?thesis by (simp add: Cons first_unlabeled_def first_valid_index_def)
  next
    case True
    have "\<forall>p\<in>set (filter (\<lambda>(i, r). \<not> labeled r) (enumerate (Suc 0) xs)). fst p \<noteq> 0"
      by (auto simp: in_set_enumerate_eq)
    then have "first_valid_index (filter (\<lambda>(i, r). \<not> labeled r) (enumerate (Suc 0) xs)) \<noteq> Some 0"
      by (cases "filter (\<lambda>(i, r). \<not> labeled r) (enumerate (Suc 0) xs)")
        (auto simp: first_valid_index_def)
    then show ?thesis using True by (simp add: Cons first_unlabeled_def)
  qed
qed

text \<open>
  On a table whose labeled rows come before its unlabeled rows, the calls of a resumed run
  are the unlabeled clusters whatever the first unlabeled row is.
\<close>

lemma resume_calls_prefix_table:
  assumes "\<forall>i<length table. labeled (table ! i) \<longrightarrow> (\<forall>j<i. labeled (table ! j))"
  shows "resume_calls table = unlabeled_indices table"
proof (cases "first_unlabeled table = Some 0")
  case False
  then show ?thesis by (simp add: resume_calls_def expected_calls_def unlabeled_indices_def)
next
  case True
  then have z: "table \<noteq> []" "\<not> labeled (table ! 0)" by (simp_all add: first_unlabeled_Some0)
  have "\<forall>i<length table. \<not> labeled (table ! i)"
  proof (intro allI impI)
    fix i assume i: "i < length table"
    show "\<not> labeled (table ! i)"
    proof (cases "i = 0")
      case True
      then show ?thesis using z by simp
    next
      case False
      then show ?thesis using assms i z by auto
    qed
  qed
  then have "filter (\<lambda>i. \<not> labeled (table ! i)) [0 ..< length table] = [0 ..< length table]"
    by (simp add: filter_id_conv)
  then show ?thesis using True by (simp add: resume_calls_def expected_calls_def unlabeled_indices_def)
qed





text \<open>
  Claim C2, evaluated on a table whose three rows are all flagged: the claim expects a
  normal end without model calls. There is no unlabeled row, so \<open>unlabeled_row\<close> is
  \<open>None\<close> and the comparison of line 123 raises \<open>TypeError\<close> in the first iteration,
  outside the \<open>try\<close>. No model call is made and nothing is written.
\<close>

theorem rerun_of_finished_table_crashes:
  "status (demo_run demo_done_table (always_reply ''Fruit'') (Some ''c-labels-001''))
     = Uncaught TypeError
   \<and> chat_log (final (demo_run demo_done_table (always_reply ''Fruit'') (Some ''c-labels-001''))) = []
   \<and> written (final (demo_run demo_done_table (always_reply ''Fruit'') (Some ''c-labels-001''))) = []
   \<and> clusters (final (demo_run demo_done_table (always_reply ''Fruit'') (Some ''c-labels-001'')))
        = demo_done_table"
  by code_simp

text \<open>
  Claim C10. The default of \<open>rerun\<close> is the empty string, which is not \<open>None\<close>: the
  rerun branch is taken with the empty run identifier and the table \<open>.parquet\<close> is read,
  an error when it does not exist. For every \<open>rerun\<close> that is not \<open>None\<close> the run
  identifier is \<open>rerun\<close> itself; only \<open>None\<close> gives the next sequential identifier.
\<close>

theorem default_rerun_is_a_rerun:
  assumes "input_column store = Some df"
      and "read_parquet store (cid @ ''-labels-default.parquet'') = Some d"
  shows "labeler_default_rerun \<noteq> None
       \<and> resolve_run store cid labeler_default_rerun d0
           = (case read_parquet store ''.parquet'' of
                None \<Rightarrow> Inl FileNotFoundError
              | Some t \<Rightarrow> Inr ([], t, first_unlabeled t))
       \<and> (read_parquet store ''.parquet'' = None
            \<longrightarrow> status (labeler store model tc cid mid ctx labeler_default_rerun)
                  = Uncaught FileNotFoundError)
       \<and> run_id (labeler store model tc cid mid ctx labeler_default_rerun) = []
       \<and> (\<forall>r. run_id (labeler store model tc cid mid ctx (Some r)) = r)
       \<and> run_id (labeler store model tc cid mid ctx None) = fresh_label_id cid (listdir store)"
proof -
  have a: "resolve_run store cid labeler_default_rerun d0
           = (case read_parquet store ''.parquet'' of
                None \<Rightarrow> Inl FileNotFoundError
              | Some t \<Rightarrow> Inr ([], t, first_unlabeled t))"
    by (simp add: resolve_run_def labeler_default_rerun_def)
  have b: "read_parquet store ''.parquet'' = None
            \<longrightarrow> status (labeler store model tc cid mid ctx labeler_default_rerun)
                  = Uncaught FileNotFoundError"
    using assms
    by (simp add: labeler_def resolve_run_def labeler_default_rerun_def failed_def)
  have c: "run_id (labeler store model tc cid mid ctx (Some r)) = r" for r
    using assms
    by (simp add: labeler_def resolve_run_def failed_def Let_def
        split: option.splits prod.splits)
  have e: "run_id (labeler store model tc cid mid ctx None) = fresh_label_id cid (listdir store)"
    using assms
    by (simp add: labeler_def resolve_run_def failed_def Let_def
        split: option.splits prod.splits)
  show ?thesis
    using a b c e by (simp add: labeler_default_rerun_def)
qed

text \<open>
  On the example dataset there is no table \<open>.parquet\<close>, so the default call fails; a
  fresh run gets the identifier after the existing \<open>c-labels-001\<close>.
\<close>

theorem default_rerun_is_a_rerun_witness:
  "input_column (demo_store []) = Some demo_df
   \<and> read_parquet (demo_store []) (''c'' @ ''-labels-default.parquet'') = Some demo_fresh_table
   \<and> read_parquet (demo_store []) ''.parquet'' = None
   \<and> resolve_run (demo_store []) ''c'' labeler_default_rerun demo_fresh_table
        = Inl FileNotFoundError
   \<and> status (labeler (demo_store []) demo_model ''text'' ''c'' ''char-model'' []
        labeler_default_rerun) = Uncaught FileNotFoundError
   \<and> run_id (labeler (demo_store []) demo_model ''text'' ''c'' ''char-model'' []
        labeler_default_rerun) = []
   \<and> run_id (labeler (demo_store []) demo_model ''text'' ''c'' ''char-model'' []
        (Some ''c-labels-001'')) = ''c-labels-001''
   \<and> run_id (labeler (demo_store []) demo_model ''text'' ''c'' ''char-model'' [] None)
        = ''c-labels-002''"
proof -
  have h1: "input_column (demo_store []) = Some demo_df"
    by (simp add: demo_store_def demo_df_def)
  have h2: "read_parquet (demo_store []) (''c'' @ ''-labels-default.parquet'') = Some demo_fresh_table"
    by (simp add: demo_store_def read_parquet_def demo_fresh_table_def)
  have h3: "read_parquet (demo_store []) ''.parquet'' = None"
    by (simp add: demo_store_def read_parquet_def)
  have h4: "fresh_label_id ''c'' (listdir (demo_store [])) = ''c-labels-002''"
    by code_simp
  note t = default_rerun_is_a_rerun [OF h1 h2, of demo_fresh_table demo_model "''text''"
      "''char-model''" "[]"]
  from t h3 have r: "resolve_run (demo_store []) ''c'' labeler_default_rerun demo_fresh_table
        = Inl FileNotFoundError"
    by simp
  from t h3 have s: "status (labeler (demo_store []) demo_model ''text'' ''c'' ''char-model'' []
        labeler_default_rerun) = Uncaught FileNotFoundError"
    by blast
  from t have e: "run_id (labeler (demo_store []) demo_model ''text'' ''c'' ''char-model'' []
        labeler_default_rerun) = []"
    by blast
  from t have o: "run_id (labeler (demo_store []) demo_model ''text'' ''c'' ''char-model'' []
        (Some ''c-labels-001'')) = ''c-labels-001''"
    by blast
  from t h4 have n: "run_id (labeler (demo_store []) demo_model ''text'' ''c'' ''char-model'' [] None)
        = ''c-labels-002''"
    by simp
  show ?thesis
    by (intro conjI h1 h2 h3 r s e o n)
qed

end
